theory Spec2Isabelle
  imports Complex_Main
begin

section \<open>Python values and errors\<close>

text \<open>
  The module \<^verbatim>\<open>uvtools/dspec.py\<close> is Python over numpy. Python floats are modelled by
  the reals and numpy's complex numbers by \<^typ>\<open>complex\<close>: rounding error, infinities
  and NaN are outside the model. Every exception the code can raise is a value of
  \<open>py_error\<close>, and a function that can raise returns \<open>py_error + 'a\<close>.
\<close>

datatype py_error = IndexError | KeyError | TypeError | ValueError | ZeroDivisionError

text \<open>
  The \<^verbatim>\<open>filter_size\<close> argument is dynamically typed: the callers in the module pass a
  number, the repository's test \<^verbatim>\<open>test_calc_width\<close> also passes a tuple of two numbers.
\<close>

datatype filter_size = Scalar real | Sequence "real list"

section \<open>Bin widths: \<^verbatim>\<open>calc_width\<close>\<close>

text \<open>
  Python 3's \<^verbatim>\<open>round\<close> on a float returns the nearest integer and breaks a tie towards
  the even neighbour. The repository's tests fix this reading:
  \<^verbatim>\<open>wedge_width(5., .01, 10) == (1, 10)\<close> needs \<^verbatim>\<open>round(0.5) == 0\<close>, and
  \<^verbatim>\<open>wedge_width(15., .01, 10) == (3, -2)\<close> needs \<^verbatim>\<open>round(1.5) == 2\<close>.
\<close>

definition py_round :: "real \<Rightarrow> int" where
  "py_round x =
     (let f = \<lfloor>x\<rfloor>; d = x - of_int f
      in if d < 1 / 2 then f
         else if 1 / 2 < d then f + 1
         else if even f then f else f + 1)"

text \<open>
  \<^verbatim>\<open>bin_width = 1. / (real_delta * nsamples)\<close> raises ZeroDivisionError on a zero
  product before \<^verbatim>\<open>filter_size\<close> is looked at; \<^verbatim>\<open>filter_size / bin_width\<close> raises
  TypeError when \<^verbatim>\<open>filter_size\<close> is a tuple or a list.
\<close>

definition calc_width :: "filter_size \<Rightarrow> real \<Rightarrow> int \<Rightarrow> py_error + (int \<times> int)" where
  "calc_width filter_size real_delta nsamples =
     (if real_delta * of_int nsamples = 0 then Inl ZeroDivisionError
      else
        let bin_width = 1 / (real_delta * of_int nsamples) in
        case filter_size of
          Sequence xs \<Rightarrow> Inl TypeError
        | Scalar fs \<Rightarrow>
            let w = py_round (fs / bin_width);
                uthresh = w + 1;
                lthresh = - w;
                lthresh = (if lthresh = 0 then nsamples else lthresh)
            in Inr (uthresh, lthresh))"

section \<open>The linear suppression operator\<close>

text \<open>
  Modelled from the spec: \<^verbatim>\<open>sinc_downweight_mat_inv\<close> is not among the source files
  (only its test \<^verbatim>\<open>test_sinc_downweight_mat_inv\<close> is). The spec gives the operator as
  the identity plus, for every region, the factor (inverted unless
  \<^verbatim>\<open>no_regularization\<close>) times \<open>sinc((i - j) * sample_spacing * 2 * width)\<close>, the
  kernel being summed over periodic shifts of the index difference when \<^verbatim>\<open>wrap\<close> is
  set (the number of periods on each side is the parameter \<open>nwraps\<close>). The spec's formula
  does not use the centres, and says nothing on a zero factor.
\<close>

definition np_sinc :: "real \<Rightarrow> real" where
  "np_sinc x = (if x = 0 then 1 else sin (pi * x) / (pi * x))"

definition sinc_kernel :: "nat \<Rightarrow> bool \<Rightarrow> nat \<Rightarrow> real \<Rightarrow> int \<Rightarrow> real \<Rightarrow> real" where
  "sinc_kernel nwraps wrap n sample_spacing k width =
     (if wrap
      then (\<Sum>m \<leftarrow> [- int nwraps .. int nwraps - 1].
              np_sinc (of_int (k - int n * m) * sample_spacing * 2 * width))
      else np_sinc (of_int k * sample_spacing * 2 * width))"

definition region_term :: "nat \<Rightarrow> bool \<Rightarrow> bool \<Rightarrow> nat \<Rightarrow> real \<Rightarrow> int \<Rightarrow> real \<times> real \<times> real \<Rightarrow> complex" where
  "region_term nwraps no_regularization wrap n sample_spacing k region =
     (case region of (centre, width, factor) \<Rightarrow>
        complex_of_real
          ((if no_regularization then factor else inverse factor)
            * sinc_kernel nwraps wrap n sample_spacing k width))"

definition identity_matrix :: "nat \<Rightarrow> complex list list" where
  "identity_matrix n = map (\<lambda>i. map (\<lambda>j. if i = j then 1 else 0) [0..<n]) [0..<n]"

definition sinc_downweight_mat_inv ::
  "nat \<Rightarrow> nat \<Rightarrow> real \<Rightarrow> real list \<Rightarrow> real list \<Rightarrow> real list \<Rightarrow> bool \<Rightarrow> bool \<Rightarrow> complex list list" where
  "sinc_downweight_mat_inv nwraps n sample_spacing filter_centers filter_widths filter_factors
       no_regularization wrap =
     map (\<lambda>i. map (\<lambda>j.
            (if i = j then 1 else 0)
            + sum_list (map (region_term nwraps no_regularization wrap n sample_spacing (int i - int j))
                (zip filter_centers (zip filter_widths filter_factors))))
          [0..<n]) [0..<n]"

section \<open>numpy arrays\<close>

text \<open>
  An array is its shape, its element type and its elements in row-major order. The
  docstrings allow real or complex data, so two element types are modelled; the elements
  are kept as complex numbers, a real array holding numbers with no imaginary part.
  numpy only builds arrays whose element count is the product of the shape
  (\<open>wf_array\<close>).
\<close>

datatype dtype = Float64 | Complex128

record ndarray =
  shape :: "nat list"
  dtype :: dtype
  elems :: "complex list"

definition ndim :: "ndarray \<Rightarrow> nat" where
  "ndim a = length (shape a)"

definition wf_array :: "ndarray \<Rightarrow> bool" where
  "wf_array a = (length (elems a) = prod_list (shape a))"

definition promote :: "dtype \<Rightarrow> dtype \<Rightarrow> dtype" where
  "promote s t = (if s = Float64 \<and> t = Float64 then Float64 else Complex128)"

text \<open>Storing a complex number into a real array drops its imaginary part.\<close>

definition cast :: "dtype \<Rightarrow> complex \<Rightarrow> complex" where
  "cast t z = (case t of Float64 \<Rightarrow> complex_of_real (Re z) | Complex128 \<Rightarrow> z)"

text \<open>
  Broadcasting, as \<^verbatim>\<open>data * wgts * window\<close> and \<^verbatim>\<open>data - d_mdl\<close> use it: the shapes
  are aligned at their last axis, two lengths agree when they are equal or one of them
  is 1, and a missing leading axis counts as length 1. \<open>broadcast_rev\<close> works on the
  reversed shapes; \<open>source_index\<close> maps a flat index of the result to the flat index of
  the operand's element that it reads (reversed shapes again). Shapes that do not
  broadcast raise ValueError.
\<close>

fun broadcast_rev :: "nat list \<Rightarrow> nat list \<Rightarrow> nat list option" where
  "broadcast_rev [] ys = Some ys"
| "broadcast_rev (x # xs) [] = Some (x # xs)"
| "broadcast_rev (x # xs) (y # ys) =
     (if x = y \<or> y = 1 then map_option ((#) x) (broadcast_rev xs ys)
      else if x = 1 then map_option ((#) y) (broadcast_rev xs ys)
      else None)"

definition broadcast_shapes :: "nat list \<Rightarrow> nat list \<Rightarrow> nat list option" where
  "broadcast_shapes s t = map_option rev (broadcast_rev (rev s) (rev t))"

fun source_index :: "nat list \<Rightarrow> nat list \<Rightarrow> nat \<Rightarrow> nat" where
  "source_index [] ns k = 0"
| "source_index (d # ds) [] k = 0"
| "source_index (d # ds) (n # ns) k =
     (if d = 1 then 0 else k mod n) + d * source_index ds ns (k div n)"

definition np_binop :: "(complex \<Rightarrow> complex \<Rightarrow> complex) \<Rightarrow> ndarray \<Rightarrow> ndarray \<Rightarrow> py_error + ndarray" where
  "np_binop f a b =
     (case broadcast_shapes (shape a) (shape b) of
        None \<Rightarrow> Inl ValueError
      | Some s \<Rightarrow>
          Inr \<lparr>shape = s, dtype = promote (dtype a) (dtype b),
               elems = map (\<lambda>k. f (elems a ! source_index (rev (shape a)) (rev s) k)
                                  (elems b ! source_index (rev (shape b)) (rev s) k))
                         [0..<prod_list s]\<rparr>)"

definition np_mul :: "ndarray \<Rightarrow> ndarray \<Rightarrow> py_error + ndarray" where
  "np_mul = np_binop (*)"

definition np_sub :: "ndarray \<Rightarrow> ndarray \<Rightarrow> py_error + ndarray" where
  "np_sub = np_binop (-)"

text \<open>Row \<open>i\<close> of a row-major buffer whose rows have \<open>n\<close> elements.\<close>

definition row :: "nat \<Rightarrow> nat \<Rightarrow> 'a list \<Rightarrow> 'a list" where
  "row n i xs = take n (drop (i * n) xs)"

text \<open>
  \<^verbatim>\<open>np.fft.ifft(x, axis=-1)\<close> and \<^verbatim>\<open>np.fft.fft(x)\<close> transform every run along the last
  axis; the one-dimensional transform \<open>f\<close> is a parameter. numpy raises IndexError on an
  array of no dimension and ValueError on a last axis of length 0; the result is complex.
\<close>

definition transform_last_axis :: "(complex list \<Rightarrow> complex list) \<Rightarrow> ndarray \<Rightarrow> py_error + ndarray" where
  "transform_last_axis f a =
     (case rev (shape a) of
        [] \<Rightarrow> Inl IndexError
      | n # ms \<Rightarrow>
          if n = 0 then Inl ValueError
          else Inr \<lparr>shape = shape a, dtype = Complex128,
                    elems = concat (map (\<lambda>i. f (row n i (elems a))) [0..<prod_list ms])\<rparr>)"

text \<open>\<^verbatim>\<open>a[i]\<close>: the sub-array at index \<open>i\<close> of the first axis, IndexError out of range.\<close>

definition index_first :: "ndarray \<Rightarrow> nat \<Rightarrow> py_error + ndarray" where
  "index_first a i =
     (case shape a of
        [] \<Rightarrow> Inl IndexError
      | m # s \<Rightarrow>
          if i < m
          then Inr \<lparr>shape = s, dtype = dtype a, elems = row (prod_list s) i (elems a)\<rparr>
          else Inl IndexError)"

text \<open>
  numpy orders complex numbers by real part, then by imaginary part. The truth value of
  an array, as an \<^verbatim>\<open>if\<close> takes it, is that of its only element, False when it is empty,
  and ValueError when it has several elements.
\<close>

definition np_less :: "complex \<Rightarrow> complex \<Rightarrow> bool" where
  "np_less a b = (Re a < Re b \<or> (Re a = Re b \<and> Im a < Im b))"

definition truth_value :: "bool list \<Rightarrow> py_error + bool" where
  "truth_value bs = (case bs of [] \<Rightarrow> Inr False | [b] \<Rightarrow> Inr b | _ \<Rightarrow> Inl ValueError)"

text \<open>
  \<^verbatim>\<open>d_mdl[i] = v\<close> for a row of \<open>n\<close> elements of type \<open>t\<close>: the value is broadcast to the
  row (leading axes of length 1 are dropped, one element fills the row, \<open>n\<close> elements are
  copied, anything else is a ValueError) and cast to the row's element type. The length
  test on the elements always holds for a numpy array of shape \<open>[n]\<close>.
\<close>

definition assign_row :: "nat \<Rightarrow> dtype \<Rightarrow> ndarray \<Rightarrow> py_error + complex list" where
  "assign_row n t v =
     (let s = dropWhile (\<lambda>d. d = 1) (shape v) in
      if s = [] then (case elems v of [] \<Rightarrow> Inl ValueError | z # zs \<Rightarrow> Inr (replicate n (cast t z)))
      else if s = [n] \<and> length (elems v) = n then Inr (map (cast t) (elems v))
      else Inl ValueError)"

definition set_row :: "nat \<Rightarrow> nat \<Rightarrow> 'a list \<Rightarrow> 'a list \<Rightarrow> 'a list" where
  "set_row n i r buf = take (i * n) buf @ r @ drop (i * n + n) buf"

section \<open>Python dictionaries\<close>

text \<open>
  The CLEAN metadata is a dictionary from strings to values, kept as an association
  list; \<^verbatim>\<open>del d[k]\<close> raises KeyError on a missing key. The filter returns one dictionary
  for one-dimensional data and a list of dictionaries for two-dimensional data.
\<close>

datatype pyval = PBool bool | PInt int | PFloat real | PStr string | PArr ndarray

type_synonym pydict = "(string \<times> pyval) list"

definition del_key :: "pydict \<Rightarrow> string \<Rightarrow> py_error + pydict" where
  "del_key d k =
     (case map_of d k of
        None \<Rightarrow> Inl KeyError
      | Some v \<Rightarrow> Inr (filter (\<lambda>kv. fst kv \<noteq> k) d))"

datatype info_result = InfoDict pydict | InfoList "pydict list"

section \<open>The libraries\<close>

text \<open>
  The filter calls \<^verbatim>\<open>aipy.dsp.gen_window\<close>, \<^verbatim>\<open>np.fft.ifft\<close>, \<^verbatim>\<open>np.fft.fft\<close> and
  \<^verbatim>\<open>aipy.deconv.clean\<close>. They are libraries, not code of this module, and are taken as
  parameters: the window generator and CLEAN may raise, the two transforms are the
  one-dimensional transforms of one run along the last axis. Every theorem on the filter
  holds for all of them, under the hypotheses it states.
\<close>

record lib =
  gen_window :: "nat \<Rightarrow> string \<Rightarrow> pydict \<Rightarrow> py_error + ndarray"
  np_ifft :: "complex list \<Rightarrow> complex list"
  np_fft :: "complex list \<Rightarrow> complex list"
  clean :: "ndarray \<Rightarrow> ndarray \<Rightarrow> int list \<Rightarrow> real \<Rightarrow> bool \<Rightarrow> int \<Rightarrow> real \<Rightarrow> py_error + (ndarray \<times> pydict)"

section \<open>The filter: \<^verbatim>\<open>high_pass_fourier_filter\<close> and \<^verbatim>\<open>delay_filter\<close>\<close>

text \<open>A raised exception ends the call: \<open>ebind\<close> runs the rest only on a result.\<close>

definition ebind :: "'e + 'a \<Rightarrow> ('a \<Rightarrow> 'e + 'b) \<Rightarrow> 'e + 'b" where
  "ebind m f = (case m of Inl e \<Rightarrow> Inl e | Inr x \<Rightarrow> f x)"

text \<open>
  \<^verbatim>\<open>area = np.ones(nchan, dtype=np.int); area[uthresh:lthresh] = 0\<close>: a slice bound that
  is negative counts from the end, and both bounds are clipped to the array.
\<close>

definition slice_bound :: "nat \<Rightarrow> int \<Rightarrow> nat" where
  "slice_bound n i = (if i < 0 then nat (max 0 (i + int n)) else min n (nat i))"

definition mk_area :: "nat \<Rightarrow> int \<Rightarrow> int \<Rightarrow> int list" where
  "mk_area nchan uthresh lthresh =
     map (\<lambda>k. if slice_bound nchan uthresh \<le> k \<and> k < slice_bound nchan lthresh then 0 else 1)
       [0..<nchan]"

text \<open>The test \<^verbatim>\<open>_w[i,0] < skip_wgt\<close> of the loop, on the transformed weights.\<close>

definition skip_test :: "ndarray \<Rightarrow> nat \<Rightarrow> real \<Rightarrow> py_error + bool" where
  "skip_test w_hat i skip_wgt =
     ebind (index_first w_hat i) (\<lambda>wi.
     ebind (index_first wi 0) (\<lambda>wi0.
       truth_value (map (\<lambda>z. np_less z (complex_of_real skip_wgt)) (elems wi0))))"

text \<open>
  The body of the loop over the rows: what is stored into \<^verbatim>\<open>d_mdl[i]\<close> and what is
  appended to \<^verbatim>\<open>info\<close>. \<open>d_hat\<close> and \<open>w_hat\<close> are the source's \<^verbatim>\<open>_d\<close> and \<^verbatim>\<open>_w\<close>.
\<close>

definition filter_row ::
  "lib \<Rightarrow> ndarray \<Rightarrow> ndarray \<Rightarrow> int list \<Rightarrow> real \<Rightarrow> real \<Rightarrow> int \<Rightarrow> real \<Rightarrow> nat \<Rightarrow> dtype \<Rightarrow> nat
     \<Rightarrow> py_error + (complex list \<times> pydict)" where
  "filter_row L d_hat w_hat area tol skip_wgt maxiter gain n t i =
     ebind (skip_test w_hat i skip_wgt) (\<lambda>skip.
       if skip then Inr (replicate n 0, [(''skipped'', PBool True)])
       else
         ebind (index_first d_hat i) (\<lambda>di.
         ebind (index_first w_hat i) (\<lambda>wi.
         ebind (clean L di wi area tol False maxiter gain) (\<lambda>(d_cl, info_here).
         ebind (transform_last_axis (np_fft L) d_cl) (\<lambda>m.
         ebind (assign_row n t m) (\<lambda>r.
         ebind (del_key info_here ''res'') (\<lambda>info_here'.
           Inr (r, info_here'))))))))"

text \<open>
  The loop \<^verbatim>\<open>for i in range(data.shape[0])\<close>, with its state: the buffer of \<^verbatim>\<open>d_mdl\<close>
  and the list \<^verbatim>\<open>info\<close>. The first exception ends it.
\<close>

fun rows_loop ::
  "(nat \<Rightarrow> py_error + (complex list \<times> pydict)) \<Rightarrow> nat \<Rightarrow> nat list \<Rightarrow> complex list \<times> pydict list
     \<Rightarrow> py_error + (complex list \<times> pydict list)" where
  "rows_loop body n [] st = Inr st"
| "rows_loop body n (i # is) (d_mdl, info) =
     ebind (body i) (\<lambda>(r, info_here).
       rows_loop body n is (set_row n i r d_mdl, info @ [info_here]))"

text \<open>
  The filter. \<^verbatim>\<open>data.shape[-1]\<close> raises IndexError on data of no dimension. The buffer
  that \<^verbatim>\<open>np.empty_like(data)\<close> allocates has unspecified contents, here zeros; the loop
  overwrites every row of it.
\<close>

definition high_pass_fourier_filter ::
  "lib \<Rightarrow> ndarray \<Rightarrow> ndarray \<Rightarrow> filter_size \<Rightarrow> real \<Rightarrow> real \<Rightarrow> string \<Rightarrow> real \<Rightarrow> int \<Rightarrow> real \<Rightarrow> pydict
     \<Rightarrow> py_error + (ndarray \<times> ndarray \<times> info_result)" where
  "high_pass_fourier_filter L data wgts filter_size real_delta tol window skip_wgt maxiter gain win_kwargs =
     (if shape data = [] then Inl IndexError
      else
        let nchan = last (shape data) in
        ebind (gen_window L nchan window win_kwargs) (\<lambda>win.
        ebind (np_mul data wgts) (\<lambda>dw.
        ebind (np_mul dw win) (\<lambda>dww.
        ebind (transform_last_axis (np_ifft L) dww) (\<lambda>d_hat.
        ebind (np_mul wgts win) (\<lambda>ww.
        ebind (transform_last_axis (np_ifft L) ww) (\<lambda>w_hat.
        ebind (calc_width filter_size real_delta (int nchan)) (\<lambda>(uthresh, lthresh).
          let area = mk_area nchan uthresh lthresh in
          if ndim data = 1 then
            ebind (clean L d_hat w_hat area tol False maxiter gain) (\<lambda>(d_cl, info).
            ebind (transform_last_axis (np_fft L) d_cl) (\<lambda>d_mdl.
            ebind (del_key info ''res'') (\<lambda>info'.
            ebind (np_sub data d_mdl) (\<lambda>d_res.
              Inr (d_mdl, d_res, InfoDict info')))))
          else if ndim data = 2 then
            ebind (rows_loop (filter_row L d_hat w_hat area tol skip_wgt maxiter gain nchan (dtype data))
                     nchan [0..<hd (shape data)] (replicate (prod_list (shape data)) 0, []))
              (\<lambda>(buf, info).
                 let d_mdl = \<lparr>shape = shape data, dtype = dtype data, elems = buf\<rparr> in
                 ebind (np_sub data d_mdl) (\<lambda>d_res.
                   Inr (d_mdl, d_res, InfoList info)))
          else Inl ValueError))))))))"

text \<open>\<^verbatim>\<open>np.max\<close> of a list of numbers; it raises ValueError on an empty list.\<close>

definition np_max :: "real list \<Rightarrow> py_error + real" where
  "np_max xs = (case xs of [] \<Rightarrow> Inl ValueError | x # ys \<Rightarrow> Inr (fold max ys x))"

definition delay_filter ::
  "lib \<Rightarrow> ndarray \<Rightarrow> ndarray \<Rightarrow> real \<Rightarrow> real \<Rightarrow> real \<Rightarrow> real \<Rightarrow> real \<Rightarrow> real \<Rightarrow> string \<Rightarrow> real \<Rightarrow> int \<Rightarrow> real
     \<Rightarrow> pydict \<Rightarrow> py_error + (ndarray \<times> ndarray \<times> info_result)" where
  "delay_filter L data wgts bl_len sdf standoff horizon min_dly tol window skip_wgt maxiter gain win_kwargs =
     (let bl_dly = horizon * bl_len + standoff in
      ebind (np_max [bl_dly, min_dly]) (\<lambda>bl_dly.
        high_pass_fourier_filter L data wgts (Scalar bl_dly) sdf tol window skip_wgt maxiter gain
          win_kwargs))"

text \<open>
  The delay filter in the spec's words: the filter with a half-width of
  \<open>max(horizon * bl_len + standoff, min_dly)\<close> and every other parameter unchanged.
\<close>

definition delay_filter_spec ::
  "lib \<Rightarrow> ndarray \<Rightarrow> ndarray \<Rightarrow> real \<Rightarrow> real \<Rightarrow> real \<Rightarrow> real \<Rightarrow> real \<Rightarrow> real \<Rightarrow> string \<Rightarrow> real \<Rightarrow> int \<Rightarrow> real
     \<Rightarrow> pydict \<Rightarrow> py_error + (ndarray \<times> ndarray \<times> info_result)" where
  "delay_filter_spec L data wgts bl_len sdf standoff horizon min_dly tol window skip_wgt maxiter gain win_kwargs =
     high_pass_fourier_filter L data wgts (Scalar (max (horizon * bl_len + standoff) min_dly)) sdf
       tol window skip_wgt maxiter gain win_kwargs"

text \<open>
  A window is a scalar (shape \<open>[]\<close>) or one number for each channel; \<open>window_index\<close> is
  the element of the window that channel \<open>k\<close> reads.
\<close>

definition window_index :: "nat list \<Rightarrow> nat \<Rightarrow> nat" where
  "window_index s k = (if s = [] then 0 else k)"

section \<open>A library instance and inputs to run the filter on\<close>

text \<open>
  An instance of the libraries, used to run the filter on concrete inputs: the exact
  discrete Fourier transform (\<open>np.fft.fft\<close> with the sign \<open>-1\<close>, \<open>np.fft.ifft\<close> with the
  sign \<open>+1\<close> and the factor \<open>1 / n\<close>), the window \<^verbatim>\<open>'none'\<close> of ones, and a stand-in for
  CLEAN that makes no iteration: a zero model, the input as residual under \<^verbatim>\<open>'res'\<close>,
  and an iteration count of 0.
\<close>

definition dft :: "real \<Rightarrow> complex list \<Rightarrow> complex list" where
  "dft dir xs =
     map (\<lambda>k. \<Sum>j \<leftarrow> [0..<length xs].
                xs ! j * cis (dir * 2 * pi * real j * real k / real (length xs)))
       [0..<length xs]"

definition fft_exact :: "complex list \<Rightarrow> complex list" where
  "fft_exact xs = dft (- 1) xs"

definition ifft_exact :: "complex list \<Rightarrow> complex list" where
  "ifft_exact xs = map (\<lambda>z. z / of_nat (length xs)) (dft 1 xs)"

definition window_ones :: "nat \<Rightarrow> string \<Rightarrow> pydict \<Rightarrow> py_error + ndarray" where
  "window_ones n name kwargs =
     (if name = ''none'' then Inr \<lparr>shape = [n], dtype = Float64, elems = replicate n 1\<rparr>
      else Inl ValueError)"

definition clean_no_iterations ::
  "ndarray \<Rightarrow> ndarray \<Rightarrow> int list \<Rightarrow> real \<Rightarrow> bool \<Rightarrow> int \<Rightarrow> real \<Rightarrow> py_error + (ndarray \<times> pydict)" where
  "clean_no_iterations d_hat w_hat area tol stop_if_div maxiter gain =
     Inr (\<lparr>shape = shape d_hat, dtype = Complex128, elems = map (\<lambda>z. 0) (elems d_hat)\<rparr>,
          [(''res'', PArr d_hat), (''iter'', PInt 0)])"

definition demo_lib :: lib where
  "demo_lib = \<lparr>gen_window = window_ones, np_ifft = ifft_exact, np_fft = fft_exact,
               clean = clean_no_iterations\<rparr>"

text \<open>
  Inputs: a spectrum of two channels; a waterfall of two integrations whose first row
  has a mean weight of \<open>1 / 20\<close>; a waterfall of three integrations that shares its
  second row with the former; an array of three dimensions; weights of three channels;
  an array of no dimension.
\<close>

definition spectrum :: ndarray where
  "spectrum = \<lparr>shape = [2], dtype = Complex128, elems = [3, 5]\<rparr>"

definition spectrum_wgts :: ndarray where
  "spectrum_wgts = \<lparr>shape = [2], dtype = Float64, elems = [1, 1]\<rparr>"

definition waterfall :: ndarray where
  "waterfall = \<lparr>shape = [2, 2], dtype = Complex128, elems = [1, 2, 3, 4]\<rparr>"

definition waterfall_wgts :: ndarray where
  "waterfall_wgts = \<lparr>shape = [2, 2], dtype = Float64, elems = [0, 1 / 10, 1, 1]\<rparr>"

definition waterfall_long :: ndarray where
  "waterfall_long = \<lparr>shape = [3, 2], dtype = Complex128, elems = [7, 8, 3, 4, 5, 6]\<rparr>"

definition waterfall_long_wgts :: ndarray where
  "waterfall_long_wgts = \<lparr>shape = [3, 2], dtype = Float64, elems = [1, 1, 1, 1, 0, 0]\<rparr>"





section \<open>Properties of \<^verbatim>\<open>calc_width\<close>\<close>

lemma py_round_of_int: "py_round (of_int k) = k"
  by (simp add: py_round_def)








text \<open>
  Claim C5 says that \<^verbatim>\<open>calc_width\<close> accepts a sequence of half-widths. On the call of
  the repository's test, \<^verbatim>\<open>calc_width((1e-2, 2e-2), 10., 100)\<close>, the code divides the
  tuple by the bin width and raises TypeError; no thresholds are returned, for this or
  any other sequence.
\<close>

theorem calc_width_sequence_raises:
  "calc_width (Sequence [1 / 100, 2 / 100]) 10 100 = Inl TypeError
   \<and> (\<forall>xs real_delta n. \<exists>e. calc_width (Sequence xs) real_delta n = Inl e)"
  by (simp add: calc_width_def)

section \<open>Properties of the linear suppression operator\<close>

text \<open>
  Claim C9. For every \<open>n\<close> and sample spacing, \<^verbatim>\<open>sinc_downweight_mat_inv\<close> with empty
  centre, width and factor lists (and the default flags) is exactly the \<open>n\<close> by \<open>n\<close>
  identity matrix.
\<close>

theorem sinc_downweight_mat_inv_no_regions:
  "sinc_downweight_mat_inv nwraps n sample_spacing [] [] [] False False = identity_matrix n"
  by (simp add: sinc_downweight_mat_inv_def identity_matrix_def)

section \<open>Exceptions, broadcasting and elementwise operations\<close>

lemma ebind_Inl [simp]: "ebind (Inl e) f = Inl e"
  by (simp add: ebind_def)

lemma ebind_Inr [simp]: "ebind (Inr x) f = f x"
  by (simp add: ebind_def)

lemma ebind_eq_Inr: "ebind m f = Inr y \<longleftrightarrow> (\<exists>x. m = Inr x \<and> f x = Inr y)"
  by (cases m) simp_all

lemma ebind_eq_Inl: "ebind m f = Inl e \<longleftrightarrow> m = Inl e \<or> (\<exists>x. m = Inr x \<and> f x = Inl e)"
  by (cases m) simp_all

lemma broadcast_rev_same: "broadcast_rev s s = Some s"
  by (induction s) simp_all

lemma broadcast_shapes_same: "broadcast_shapes s s = Some s"
  by (simp add: broadcast_shapes_def broadcast_rev_same)




lemma source_index_same: "k < prod_list s \<Longrightarrow> source_index s s k = k"
proof (induction s arbitrary: k)
  case Nil
  then show ?case by simp
next
  case (Cons d s)
  show ?case
  proof (cases "d = 1")
    case True
    with Cons show ?thesis by simp
  next
    case False
    from Cons.prems have "0 < d" by (cases d) simp_all
    with Cons.prems have "k div d < prod_list s"
      by (simp add: less_mult_imp_div_less mult.commute)
    then have "source_index s s (k div d) = k div d" by (rule Cons.IH)
    with False show ?thesis by simp
  qed
qed

lemma np_binop_shape:
  "np_binop f a b = Inr c \<Longrightarrow> broadcast_shapes (shape a) (shape b) = Some (shape c)"
  by (auto simp: np_binop_def split: option.splits)


lemma np_binop_wf: "np_binop f a b = Inr c \<Longrightarrow> wf_array c"
  by (auto simp: np_binop_def wf_array_def split: option.splits)

lemma np_binop_nth:
  assumes "np_binop f a b = Inr c" and "k < prod_list (shape c)"
  shows "elems c ! k = f (elems a ! source_index (rev (shape a)) (rev (shape c)) k)
                         (elems b ! source_index (rev (shape b)) (rev (shape c)) k)"
  using assms by (auto simp: np_binop_def split: option.splits)

lemma np_binop_same_shape:
  "np_binop f a b = Inr c \<Longrightarrow> shape b = shape a \<Longrightarrow> shape c = shape a"
  by (auto simp: np_binop_def broadcast_shapes_same split: option.splits)

lemma np_binop_same_shape_nth:
  assumes "np_binop f a b = Inr c" and "shape b = shape a" and "k < prod_list (shape a)"
  shows "shape c = shape a \<and> elems c ! k = f (elems a ! k) (elems b ! k)"
proof -
  from assms(1,2) have s: "shape c = shape a"
    by (auto simp: np_binop_def broadcast_shapes_same split: option.splits)
  from assms(3) have "source_index (rev (shape a)) (rev (shape a)) k = k"
    by (simp add: source_index_same)
  with np_binop_nth [OF assms(1)] assms s show ?thesis by simp
qed

section \<open>Rows of a buffer and the loop over the rows\<close>

lemma length_row: "i * n + n \<le> length xs \<Longrightarrow> length (row n i xs) = n"
  by (simp add: row_def)

lemma row_nth: "k < n \<Longrightarrow> i * n + n \<le> length xs \<Longrightarrow> row n i xs ! k = xs ! (i * n + k)"
  by (simp add: row_def)

lemma row_eq_map: "i * n + n \<le> length xs \<Longrightarrow> row n i xs = map (\<lambda>k. xs ! (i * n + k)) [0..<n]"
  by (rule nth_equalityI) (simp_all add: length_row row_nth)

lemma row_map_upt:
  "i * n + n \<le> m \<Longrightarrow> row n i (map g [0..<m]) = map (\<lambda>k. g (i * n + k)) [0..<n]"
  by (rule nth_equalityI) (simp_all add: length_row row_nth)

lemma length_set_row:
  "length r = n \<Longrightarrow> i * n + n \<le> length buf \<Longrightarrow> length (set_row n i r buf) = length buf"
  by (simp add: set_row_def)

lemma row_set_row_same:
  "length r = n \<Longrightarrow> i * n + n \<le> length buf \<Longrightarrow> row n i (set_row n i r buf) = r"
  by (simp add: set_row_def row_def)

lemma mult_row_le: "j < i \<Longrightarrow> j * n + n \<le> i * (n::nat)"
proof -
  assume "j < i"
  then have "Suc j \<le> i" by simp
  then have "Suc j * n \<le> i * n" by (rule mult_le_mono1)
  then show ?thesis by (simp add: add.commute)
qed

lemma row_set_row_other:
  assumes "length r = n" and "i * n + n \<le> length buf" and "j \<noteq> i"
  shows "row n j (set_row n i r buf) = row n j buf"
proof (cases "j < i")
  case True
  then have le: "j * n + n \<le> i * n" by (rule mult_row_le)
  have "take (j * n + n) (set_row n i r buf) = take (j * n + n) buf"
    using le assms(2) by (simp add: set_row_def min_def)
  then have "drop (j * n) (take (j * n + n) (set_row n i r buf)) = drop (j * n) (take (j * n + n) buf)"
    by simp
  then show ?thesis
    by (simp add: row_def drop_take)
next
  case False
  with assms(3) have "i < j" by simp
  then have le: "i * n + n \<le> j * n" by (rule mult_row_le)
  then obtain d where d: "j * n = i * n + n + d"
    using le_Suc_ex by blast
  have "drop (j * n) (set_row n i r buf) = drop (j * n) buf"
    using assms(1,2) by (simp add: set_row_def d) (simp add: add.commute add.left_commute)
  then show ?thesis by (simp add: row_def)
qed

lemma rows_loop_invariant:
  assumes "rows_loop body n js (buf, info) = Inr (buf', info')"
    and "\<And>i r nfo. body i = Inr (r, nfo) \<Longrightarrow> length r = n"
    and "distinct js"
    and "\<And>i. i \<in> set js \<Longrightarrow> i * n + n \<le> length buf"
  shows "length buf' = length buf
       \<and> length info' = length info + length js
       \<and> (\<forall>j<length js. body (js ! j) = Inr (row n (js ! j) buf', info' ! (length info + j)))
       \<and> (\<forall>i. i \<notin> set js \<longrightarrow> row n i buf' = row n i buf)
       \<and> take (length info) info' = info"
  using assms(1,3,4)
proof (induction js arbitrary: buf info)
  case Nil
  then show ?case by simp
next
  case (Cons i js)
  from Cons.prems(1) obtain r nfo where b: "body i = Inr (r, nfo)"
    and rest: "rows_loop body n js (set_row n i r buf, info @ [nfo]) = Inr (buf', info')"
    by (auto simp: ebind_eq_Inr)
  from b have lr: "length r = n" by (rule assms(2))
  have bound: "i * n + n \<le> length buf" using Cons.prems(3) by simp
  have len: "length (set_row n i r buf) = length buf"
    using lr bound by (rule length_set_row)
  have IH: "length buf' = length (set_row n i r buf)
       \<and> length info' = length (info @ [nfo]) + length js
       \<and> (\<forall>j<length js. body (js ! j) = Inr (row n (js ! j) buf', info' ! (length (info @ [nfo]) + j)))
       \<and> (\<forall>k. k \<notin> set js \<longrightarrow> row n k buf' = row n k (set_row n i r buf))
       \<and> take (length (info @ [nfo])) info' = info @ [nfo]"
    using rest Cons.prems(2,3) len by (intro Cons.IH) simp_all
  from Cons.prems(2) have notin: "i \<notin> set js" by simp
  from IH notin have ri: "row n i buf' = r"
    using row_set_row_same [OF lr bound] by simp
  from IH have tk: "take (Suc (length info)) info' = info @ [nfo]" by simp
  have li: "length info < length info'" using IH by simp
  from tk li have at: "info' ! length info = nfo"
    by (metis lessI nth_append_length nth_take)
  have head: "body i = Inr (row n i buf', info' ! length info)"
    using b ri at by simp
  have tl: "\<forall>j<length js. body (js ! j) = Inr (row n (js ! j) buf', info' ! (length info + Suc j))"
    using IH by simp
  have all: "\<forall>j<length (i # js). body ((i # js) ! j) = Inr (row n ((i # js) ! j) buf', info' ! (length info + j))"
  proof (intro allI impI)
    fix j assume "j < length (i # js)"
    then show "body ((i # js) ! j) = Inr (row n ((i # js) ! j) buf', info' ! (length info + j))"
      using head tl by (cases j) simp_all
  qed
  have other: "\<forall>k. k \<notin> set (i # js) \<longrightarrow> row n k buf' = row n k buf"
    using IH row_set_row_other [OF lr bound] by simp
  have tk2: "take (length info) info' = info"
  proof -
    have "take (length info) (take (Suc (length info)) info') = take (length info) (info @ [nfo])"
      by (simp only: tk)
    then show ?thesis by simp
  qed
  from IH len all other tk2 show ?case by simp
qed

lemma assign_row_length: "assign_row n t v = Inr r \<Longrightarrow> length r = n"
  by (auto simp: assign_row_def Let_def split: if_splits list.splits)

lemma filter_row_length:
  "filter_row L d_hat w_hat area tol skip_wgt maxiter gain n t i = Inr (r, nfo) \<Longrightarrow> length r = n"
  by (auto simp: filter_row_def ebind_eq_Inr assign_row_length split: if_splits)

section \<open>What a successful call has computed\<close>

lemma hpff_2d_unfold:
  assumes "high_pass_fourier_filter L data wgts fsz rd tol window skip_wgt maxiter gain kw
             = Inr (mdl, res, info)"
    and "ndim data = 2"
  obtains win dw dww d_hat ww w_hat u l buf infos where
    "gen_window L (last (shape data)) window kw = Inr win"
    "np_mul data wgts = Inr dw"
    "np_mul dw win = Inr dww"
    "transform_last_axis (np_ifft L) dww = Inr d_hat"
    "np_mul wgts win = Inr ww"
    "transform_last_axis (np_ifft L) ww = Inr w_hat"
    "calc_width fsz rd (int (last (shape data))) = Inr (u, l)"
    "rows_loop (filter_row L d_hat w_hat (mk_area (last (shape data)) u l) tol skip_wgt maxiter gain
        (last (shape data)) (dtype data)) (last (shape data)) [0..<hd (shape data)]
        (replicate (prod_list (shape data)) 0, []) = Inr (buf, infos)"
    "mdl = \<lparr>shape = shape data, dtype = dtype data, elems = buf\<rparr>"
    "np_sub data mdl = Inr res"
    "info = InfoList infos"
  using assms
  by (auto simp: high_pass_fourier_filter_def Let_def ebind_eq_Inr split: if_splits)

lemma hpff_1d_unfold:
  assumes "high_pass_fourier_filter L data wgts fsz rd tol window skip_wgt maxiter gain kw
             = Inr (mdl, res, info)"
    and "ndim data = 1"
  obtains win dw dww d_hat ww w_hat u l d_cl info0 info1 where
    "gen_window L (last (shape data)) window kw = Inr win"
    "np_mul data wgts = Inr dw"
    "np_mul dw win = Inr dww"
    "transform_last_axis (np_ifft L) dww = Inr d_hat"
    "np_mul wgts win = Inr ww"
    "transform_last_axis (np_ifft L) ww = Inr w_hat"
    "calc_width fsz rd (int (last (shape data))) = Inr (u, l)"
    "clean L d_hat w_hat (mk_area (last (shape data)) u l) tol False maxiter gain = Inr (d_cl, info0)"
    "transform_last_axis (np_fft L) d_cl = Inr mdl"
    "del_key info0 ''res'' = Inr info1"
    "np_sub data mdl = Inr res"
    "info = InfoDict info1"
  using assms
  by (auto simp: high_pass_fourier_filter_def Let_def ebind_eq_Inr split: if_splits)

lemma hpff_ndim:
  assumes "high_pass_fourier_filter L data wgts fsz rd tol window skip_wgt maxiter gain kw
             = Inr (mdl, res, info)"
  shows "ndim data = 1 \<or> ndim data = 2"
  using assms
  by (auto simp: high_pass_fourier_filter_def Let_def ebind_eq_Inr split: if_splits)

lemma np_max_pair: "np_max [a, b] = Inr (max a b)"
  by (simp add: np_max_def max.commute)

lemma rows_loop_upt:
  assumes "rows_loop (filter_row L d_hat w_hat area tol skip_wgt maxiter gain n t) n [0..<m]
             (replicate (m * n) 0, []) = Inr (buf, infos)"
  shows "length buf = m * n \<and> length infos = m
       \<and> (\<forall>i<m. filter_row L d_hat w_hat area tol skip_wgt maxiter gain n t i
                    = Inr (row n i buf, infos ! i))"
proof -
  have "length buf = length (replicate (m * n) (0::complex))
       \<and> length infos = length ([]::pydict list) + length [0..<m]
       \<and> (\<forall>j<length [0..<m]. filter_row L d_hat w_hat area tol skip_wgt maxiter gain n t ([0..<m] ! j)
              = Inr (row n ([0..<m] ! j) buf, infos ! (length ([]::pydict list) + j)))
       \<and> (\<forall>i. i \<notin> set [0..<m] \<longrightarrow> row n i buf = row n i (replicate (m * n) 0))
       \<and> take (length ([]::pydict list)) infos = []"
  proof (rule rows_loop_invariant [OF assms])
    show "length r = n"
      if "filter_row L d_hat w_hat area tol skip_wgt maxiter gain n t i = Inr (r, nfo)" for i r nfo
      using that by (rule filter_row_length)
    show "distinct [0..<m]" by simp
    show "i * n + n \<le> length (replicate (m * n) (0::complex))" if "i \<in> set [0..<m]" for i
      using that mult_row_le [of i m n] by simp
  qed
  then show ?thesis by simp
qed


lemma residual_row:
  assumes sub: "np_sub data mdl = Inr res"
    and sh: "shape data = [m, n]" "shape mdl = [m, n]"
    and wf: "wf_array data" "length (elems mdl) = m * n"
    and i: "i < m"
  shows "row n i (elems res) = map2 (-) (row n i (elems data)) (row n i (elems mdl))"
proof -
  from i have bound: "i * n + n \<le> m * n" by (rule mult_row_le)
  from sub sh have shr: "shape res = [m, n]"
    using np_binop_same_shape [of "(-)" data mdl res] by (simp add: np_sub_def)
  from sub have "wf_array res" unfolding np_sub_def by (rule np_binop_wf)
  with shr have lr: "length (elems res) = m * n" by (simp add: wf_array_def)
  from wf sh have ld: "length (elems data) = m * n" by (simp add: wf_array_def)
  have nth: "elems res ! k = elems data ! k - elems mdl ! k" if "k < m * n" for k
    using np_binop_same_shape_nth [of "(-)" data mdl res k] sub sh that
    by (simp add: np_sub_def)
  show ?thesis
  proof (rule nth_equalityI)
    show "length (row n i (elems res)) = length (map2 (-) (row n i (elems data)) (row n i (elems mdl)))"
      using bound lr ld wf(2) by (simp add: length_row)
  next
    fix k assume "k < length (row n i (elems res))"
    with bound lr have k: "k < n" by (simp add: length_row)
    with bound have "i * n + k < m * n" by simp
    then have "elems res ! (i * n + k) = elems data ! (i * n + k) - elems mdl ! (i * n + k)"
      by (rule nth)
    with k bound lr ld wf(2)
    show "row n i (elems res) ! k = map2 (-) (row n i (elems data)) (row n i (elems mdl)) ! k"
      by (simp add: row_nth length_row)
  qed
qed

section \<open>Rows of the transformed data and weights\<close>

lemma length_concat_rows:
  "(\<And>r. r < m \<Longrightarrow> length (g r) = n) \<Longrightarrow> length (concat (map g [0..<m])) = m * n"
  by (induction m) simp_all

lemma row_concat_rows:
  assumes "\<And>r. r < m \<Longrightarrow> length (g r) = n" and "i < m"
  shows "row n i (concat (map g [0..<m])) = g i"
  using assms
proof (induction m)
  case 0
  then show ?case by simp
next
  case (Suc m)
  have len: "length (concat (map g [0..<m])) = m * n"
    using Suc.prems(1) by (intro length_concat_rows) simp
  show ?case
  proof (cases "i < m")
    case True
    then have "i * n + n \<le> m * n" by (rule mult_row_le)
    with len have "row n i (concat (map g [0..<m]) @ g m) = row n i (concat (map g [0..<m]))"
      by (simp add: row_def)
    also have "\<dots> = g i" using Suc.prems(1) True by (intro Suc.IH) simp_all
    finally show ?thesis by simp
  next
    case False
    with Suc.prems(2) have "i = m" by simp
    with len Suc.prems(1) [of m] show ?thesis by (simp add: row_def)
  qed
qed

lemma transform_rows:
  assumes t: "transform_last_axis f a = Inr c"
    and sh: "shape a = [m, n]"
    and len: "length (elems a) = m * n"
    and f: "\<And>xs. length (f xs) = length xs"
  shows "shape c = [m, n] \<and> length (elems c) = m * n
       \<and> (\<forall>i<m. row n i (elems c) = f (row n i (elems a)))"
proof -
  from t sh have c: "c = \<lparr>shape = [m, n], dtype = Complex128,
        elems = concat (map (\<lambda>i. f (row n i (elems a))) [0..<m])\<rparr>"
    by (auto simp: transform_last_axis_def split: if_splits)
  have chunk: "length (f (row n r (elems a))) = n" if "r < m" for r
  proof -
    from that have "r * n + n \<le> m * n" by (rule mult_row_le)
    with len show ?thesis by (simp add: f length_row)
  qed
  have "length (elems c) = m * n"
    unfolding c using chunk by (simp add: length_concat_rows)
  moreover have "row n i (elems c) = f (row n i (elems a))" if "i < m" for i
    unfolding c using chunk that
    by (simp add: row_concat_rows [where g = "\<lambda>i. f (row n i (elems a))"])
  ultimately show ?thesis using c by simp
qed

lemma binop_rows:
  assumes op: "np_binop f a b = Inr c"
    and sh: "shape a = [m, n]" "shape b = [m, n]"
    and len: "length (elems a) = m * n" "length (elems b) = m * n"
    and i: "i < m"
  shows "shape c = [m, n] \<and> length (elems c) = m * n
       \<and> row n i (elems c) = map2 f (row n i (elems a)) (row n i (elems b))"
proof -
  from i have bound: "i * n + n \<le> m * n" by (rule mult_row_le)
  from op sh have shc: "shape c = [m, n]"
    using np_binop_same_shape [of f a b c] by simp
  from op have "wf_array c" by (rule np_binop_wf)
  with shc have lc: "length (elems c) = m * n" by (simp add: wf_array_def)
  have nth: "elems c ! k = f (elems a ! k) (elems b ! k)" if "k < m * n" for k
    using np_binop_same_shape_nth [of f a b c k] op sh that by simp
  have "row n i (elems c) = map2 f (row n i (elems a)) (row n i (elems b))"
  proof (rule nth_equalityI)
    show "length (row n i (elems c)) = length (map2 f (row n i (elems a)) (row n i (elems b)))"
      using bound lc len by (simp add: length_row)
  next
    fix k assume "k < length (row n i (elems c))"
    with bound lc have k: "k < n" by (simp add: length_row)
    with bound have "i * n + k < m * n" by simp
    then have "elems c ! (i * n + k) = f (elems a ! (i * n + k)) (elems b ! (i * n + k))"
      by (rule nth)
    with k bound lc len
    show "row n i (elems c) ! k = map2 f (row n i (elems a)) (row n i (elems b)) ! k"
      by (simp add: row_nth length_row)
  qed
  with shc lc show ?thesis by simp
qed

lemma broadcast_window:
  assumes "s = [n] \<or> s = []"
  shows "broadcast_shapes [m, n] s = Some [m, n]"
  using assms by (auto simp: broadcast_shapes_def)

lemma source_index_window:
  assumes s: "s = [n] \<or> s = []" and k: "k < n"
  shows "source_index (rev s) [n, m] (i * n + k) = window_index s k"
  using assms by (auto simp: window_index_def)

lemma binop_window_rows:
  assumes op: "np_binop f a b = Inr c"
    and sh: "shape a = [m, n]" "shape b = [n] \<or> shape b = []"
    and len: "length (elems a) = m * n"
    and i: "i < m"
  shows "shape c = [m, n] \<and> length (elems c) = m * n
       \<and> row n i (elems c)
           = map (\<lambda>k. f (row n i (elems a) ! k) (elems b ! window_index (shape b) k)) [0..<n]"
proof -
  from i have bound: "i * n + n \<le> m * n" by (rule mult_row_le)
  from np_binop_shape [OF op] sh have shc: "shape c = [m, n]"
    by (simp add: broadcast_window)
  from op have "wf_array c" by (rule np_binop_wf)
  with shc have lc: "length (elems c) = m * n" by (simp add: wf_array_def)
  have nth: "elems c ! (i * n + k) = f (elems a ! (i * n + k)) (elems b ! window_index (shape b) k)"
    if "k < n" for k
  proof -
    from that bound have lt: "i * n + k < prod_list (shape c)" by (simp add: shc)
    have "source_index (rev (shape a)) (rev (shape c)) (i * n + k) = i * n + k"
      using lt sh shc source_index_same [of "i * n + k" "[n, m]"] by (simp add: mult.commute)
    moreover have "source_index (rev (shape b)) (rev (shape c)) (i * n + k) = window_index (shape b) k"
      using source_index_window [OF sh(2) that] shc by simp
    ultimately show ?thesis
      using np_binop_nth [OF op lt] by simp
  qed
  have "row n i (elems c)
      = map (\<lambda>k. f (row n i (elems a) ! k) (elems b ! window_index (shape b) k)) [0..<n]"
  proof (rule nth_equalityI)
    show "length (row n i (elems c))
        = length (map (\<lambda>k. f (row n i (elems a) ! k) (elems b ! window_index (shape b) k)) [0..<n])"
      using bound lc by (simp add: length_row)
  next
    fix k assume "k < length (row n i (elems c))"
    with bound lc have k: "k < n" by (simp add: length_row)
    with bound lc len nth [OF k]
    show "row n i (elems c) ! k
        = map (\<lambda>k. f (row n i (elems a) ! k) (elems b ! window_index (shape b) k)) [0..<n] ! k"
      by (simp add: row_nth)
  qed
  with shc lc show ?thesis by simp
qed

lemma index_first_2d:
  "shape a = [m, n] \<Longrightarrow> i < m \<Longrightarrow>
   index_first a i = Inr \<lparr>shape = [n], dtype = dtype a, elems = row n i (elems a)\<rparr>"
  by (simp add: index_first_def)

lemma transform_dtype: "transform_last_axis f a = Inr c \<Longrightarrow> dtype c = Complex128"
  by (auto simp: transform_last_axis_def split: list.splits if_splits)

lemma filter_row_cong:
  assumes "index_first d_hat' i = index_first d_hat i"
    and "index_first w_hat' i = index_first w_hat i"
  shows "filter_row L d_hat' w_hat' area tol skip_wgt maxiter gain n t i
       = filter_row L d_hat w_hat area tol skip_wgt maxiter gain n t i"
  unfolding filter_row_def skip_test_def by (simp only: assms)

lemma reciprocal_rows:
  assumes dw: "np_mul data wgts = Inr dw"
    and dww: "np_mul dw win = Inr dww"
    and d_hat: "transform_last_axis (np_ifft L) dww = Inr d_hat"
    and ww: "np_mul wgts win = Inr ww"
    and w_hat: "transform_last_axis (np_ifft L) ww = Inr w_hat"
    and sh: "shape data = [m, n]" "shape wgts = [m, n]"
    and wf: "wf_array data" "wf_array wgts"
    and win: "shape win = [n] \<or> shape win = []"
    and lib: "\<And>xs. length (np_ifft L xs) = length xs"
    and i: "i < m"
  shows "index_first d_hat i =
           Inr \<lparr>shape = [n], dtype = Complex128,
                elems = np_ifft L (map (\<lambda>k. map2 (*) (row n i (elems data)) (row n i (elems wgts)) ! k
                                            * elems win ! window_index (shape win) k) [0..<n])\<rparr>"
    and "index_first w_hat i =
           Inr \<lparr>shape = [n], dtype = Complex128,
                elems = np_ifft L (map (\<lambda>k. row n i (elems wgts) ! k
                                            * elems win ! window_index (shape win) k) [0..<n])\<rparr>"
proof -
  from wf sh have ld: "length (elems data) = m * n" and lw: "length (elems wgts) = m * n"
    by (simp_all add: wf_array_def)
  from binop_rows [OF dw [unfolded np_mul_def] sh ld lw i]
  have dw_sh: "shape dw = [m, n]" and dw_len: "length (elems dw) = m * n"
    and dw_row: "row n i (elems dw) = map2 (*) (row n i (elems data)) (row n i (elems wgts))"
    by simp_all
  from binop_window_rows [OF dww [unfolded np_mul_def] dw_sh win dw_len i]
  have dww_sh: "shape dww = [m, n]" and dww_len: "length (elems dww) = m * n"
    and dww_row: "row n i (elems dww)
        = map (\<lambda>k. row n i (elems dw) ! k * elems win ! window_index (shape win) k) [0..<n]"
    by simp_all
  from transform_rows [OF d_hat dww_sh dww_len lib] i
  have dh_sh: "shape d_hat = [m, n]" and dh_row: "row n i (elems d_hat) = np_ifft L (row n i (elems dww))"
    by simp_all
  from index_first_2d [OF dh_sh i] transform_dtype [OF d_hat] dh_row dww_row dw_row
  show "index_first d_hat i =
           Inr \<lparr>shape = [n], dtype = Complex128,
                elems = np_ifft L (map (\<lambda>k. map2 (*) (row n i (elems data)) (row n i (elems wgts)) ! k
                                            * elems win ! window_index (shape win) k) [0..<n])\<rparr>"
    by simp
  from binop_window_rows [OF ww [unfolded np_mul_def] sh(2) win lw i]
  have ww_sh: "shape ww = [m, n]" and ww_len: "length (elems ww) = m * n"
    and ww_row: "row n i (elems ww)
        = map (\<lambda>k. row n i (elems wgts) ! k * elems win ! window_index (shape win) k) [0..<n]"
    by simp_all
  from transform_rows [OF w_hat ww_sh ww_len lib] i
  have wh_sh: "shape w_hat = [m, n]" and wh_row: "row n i (elems w_hat) = np_ifft L (row n i (elems ww))"
    by simp_all
  from index_first_2d [OF wh_sh i] transform_dtype [OF w_hat] wh_row ww_row
  show "index_first w_hat i =
           Inr \<lparr>shape = [n], dtype = Complex128,
                elems = np_ifft L (map (\<lambda>k. row n i (elems wgts) ! k
                                            * elems win ! window_index (shape win) k) [0..<n])\<rparr>"
    by simp
qed

section \<open>Errors before the dimension check\<close>




section \<open>Runs on concrete inputs\<close>

lemma length_dft: "length (dft dir xs) = length xs"
  by (simp add: dft_def)

lemma length_ifft_exact: "length (ifft_exact xs) = length xs"
  by (simp add: ifft_exact_def length_dft)

lemma upt_2: "[0..<2] = [0, 1]"
  by (simp add: upt_rec)

lemma replicate_2: "replicate 2 x = [x, x]"
  by (simp add: numeral_2_eq_2)

lemma dft_pair: "dft dir [a, b] = [a + b, a + b * cis (dir * pi)]"
  by (simp add: dft_def upt_rec)

lemma ifft_exact_pair: "ifft_exact [a, b] = [(a + b) / 2, (a - b) / 2]"
  by (simp add: ifft_exact_def dft_pair)

lemma cis_minus_pi: "cis (- pi) = - 1"
  by (simp add: complex_eq_iff)

lemma fft_exact_pair: "fft_exact [a, b] = [a + b, a - b]"
  by (simp add: fft_exact_def dft_pair cis_minus_pi)

lemma run_spectrum:
  "high_pass_fourier_filter demo_lib spectrum spectrum_wgts (Scalar 0) 1 (1 / 10) ''none'' skip_wgt 0
       (1 / 10) []
     = Inr (\<lparr>shape = [2], dtype = Complex128, elems = [0, 0]\<rparr>,
            \<lparr>shape = [2], dtype = Complex128, elems = [3, 5]\<rparr>,
            InfoDict [(''iter'', PInt 0)])"
  by (simp add: high_pass_fourier_filter_def demo_lib_def spectrum_def spectrum_wgts_def
      window_ones_def clean_no_iterations_def np_mul_def np_sub_def np_binop_def
      broadcast_shapes_def promote_def transform_last_axis_def row_def ifft_exact_pair
      fft_exact_pair calc_width_def py_round_def mk_area_def slice_bound_def ndim_def del_key_def
      upt_2)

lemma run_waterfall:
  "high_pass_fourier_filter demo_lib waterfall waterfall_wgts (Scalar 0) 1 (1 / 10) ''none'' (1 / 10) 0
       (1 / 10) []
     = Inr (\<lparr>shape = [2, 2], dtype = Complex128, elems = [0, 0, 0, 0]\<rparr>,
            \<lparr>shape = [2, 2], dtype = Complex128, elems = [1, 2, 3, 4]\<rparr>,
            InfoList [[(''skipped'', PBool True)], [(''iter'', PInt 0)]])"
  by (simp add: high_pass_fourier_filter_def demo_lib_def waterfall_def waterfall_wgts_def
      window_ones_def clean_no_iterations_def np_mul_def np_sub_def np_binop_def
      broadcast_shapes_def promote_def transform_last_axis_def row_def ifft_exact_pair
      fft_exact_pair calc_width_def py_round_def mk_area_def slice_bound_def ndim_def del_key_def
      upt_2 upt_rec filter_row_def skip_test_def index_first_def truth_value_def np_less_def
      assign_row_def cast_def set_row_def replicate_2)

lemmas eval_defs =
  high_pass_fourier_filter_def demo_lib_def window_ones_def clean_no_iterations_def
  np_mul_def np_sub_def np_binop_def broadcast_shapes_def promote_def transform_last_axis_def
  row_def ifft_exact_pair fft_exact_pair calc_width_def py_round_def mk_area_def slice_bound_def
  ndim_def del_key_def upt_rec filter_row_def skip_test_def index_first_def truth_value_def
  np_less_def assign_row_def cast_def set_row_def replicate_2 wf_array_def

lemma run_waterfall_long:
  "high_pass_fourier_filter demo_lib waterfall_long waterfall_long_wgts (Scalar 0) 1 (1 / 10) ''none''
       (1 / 10) 0 (1 / 10) []
     = Inr (\<lparr>shape = [3, 2], dtype = Complex128, elems = [0, 0, 0, 0, 0, 0]\<rparr>,
            \<lparr>shape = [3, 2], dtype = Complex128, elems = [7, 8, 3, 4, 5, 6]\<rparr>,
            InfoList [[(''iter'', PInt 0)], [(''iter'', PInt 0)], [(''skipped'', PBool True)]])"
  by (simp add: eval_defs waterfall_long_def waterfall_long_wgts_def)


section \<open>Properties of the filter\<close>




text \<open>
  Claim C3. Whenever the filter returns, the residual is the original data minus the
  returned model, in numpy's subtraction; weights and window do not enter. For
  two-dimensional data the model has the shape of the data, and whenever it has, the
  subtraction is elementwise.
\<close>

theorem residual_is_data_minus_model:
  assumes "high_pass_fourier_filter L data wgts fsz rd tol window skip_wgt maxiter gain kw
             = Inr (mdl, res, info)"
  shows "np_sub data mdl = Inr res
       \<and> (ndim data = 2 \<longrightarrow> shape mdl = shape data)
       \<and> (shape mdl = shape data \<longrightarrow>
            shape res = shape data
            \<and> (\<forall>k<prod_list (shape data). elems res ! k = elems data ! k - elems mdl ! k))"
proof -
  from hpff_ndim [OF assms] have sub: "np_sub data mdl = Inr res"
  proof
    assume "ndim data = 1"
    with assms show ?thesis by (elim hpff_1d_unfold) simp_all
  next
    assume "ndim data = 2"
    with assms show ?thesis by (elim hpff_2d_unfold) simp_all
  qed
  have two: "shape mdl = shape data" if "ndim data = 2"
    using assms that by (elim hpff_2d_unfold) simp_all
  have elt: "shape res = shape data
       \<and> (\<forall>k<prod_list (shape data). elems res ! k = elems data ! k - elems mdl ! k)"
    if "shape mdl = shape data"
    using np_binop_same_shape_nth [of "(-)" data mdl res]
      np_binop_same_shape [of "(-)" data mdl res] sub that
    by (simp add: np_sub_def)
  from sub two elt show ?thesis by blast
qed

theorem residual_is_data_minus_model_witness:
  "high_pass_fourier_filter demo_lib waterfall waterfall_wgts (Scalar 0) 1 (1 / 10) ''none'' (1 / 10) 0
       (1 / 10) []
     = Inr (\<lparr>shape = [2, 2], dtype = Complex128, elems = [0, 0, 0, 0]\<rparr>,
            \<lparr>shape = [2, 2], dtype = Complex128, elems = [1, 2, 3, 4]\<rparr>,
            InfoList [[(''skipped'', PBool True)], [(''iter'', PInt 0)]])
   \<and> np_sub waterfall \<lparr>shape = [2, 2], dtype = Complex128, elems = [0, 0, 0, 0]\<rparr>
       = Inr \<lparr>shape = [2, 2], dtype = Complex128, elems = [1, 2, 3, 4]\<rparr>
   \<and> ndim waterfall = 2
   \<and> (3::nat) < prod_list (shape waterfall)
   \<and> [1, 2, 3, 4 :: complex] ! 3 = elems waterfall ! 3 - [0, 0, 0, 0] ! 3"
proof -
  have nd: "ndim waterfall = 2" and k: "(3::nat) < prod_list (shape waterfall)"
    and waterfall_shape: "shape waterfall = [2, 2]"
    by (simp_all add: waterfall_def ndim_def)
  from residual_is_data_minus_model [OF run_waterfall] nd waterfall_shape
  have sub: "np_sub waterfall \<lparr>shape = [2, 2], dtype = Complex128, elems = [0, 0, 0, 0]\<rparr>
       = Inr \<lparr>shape = [2, 2], dtype = Complex128, elems = [1, 2, 3, 4]\<rparr>"
    and elt: "\<forall>k<prod_list (shape waterfall).
        elems \<lparr>shape = [2, 2], dtype = Complex128, elems = [1, 2, 3, 4]\<rparr> ! k
          = elems waterfall ! k - elems \<lparr>shape = [2, 2], dtype = Complex128, elems = [0, 0, 0, 0]\<rparr> ! k"
    by simp_all
  from elt k have "elems \<lparr>shape = [2, 2], dtype = Complex128, elems = [1, 2, 3, 4]\<rparr> ! 3
          = elems waterfall ! 3 - elems \<lparr>shape = [2, 2], dtype = Complex128, elems = [0, 0, 0, 0]\<rparr> ! 3"
    by blast
  with run_waterfall sub nd k show ?thesis by simp
qed




text \<open>
  Claim C7. The delay filter returns what the filter returns for the half-width
  \<open>max(horizon * bl_len + standoff, min_dly)\<close>, every other parameter forwarded
  unchanged: the definition from the source equals the one in the spec's words.
\<close>

theorem delay_filter_forwards:
  "delay_filter L data wgts bl_len sdf standoff horizon min_dly tol window skip_wgt maxiter gain kw
     = delay_filter_spec L data wgts bl_len sdf standoff horizon min_dly tol window skip_wgt maxiter
         gain kw"
  by (simp add: delay_filter_def delay_filter_spec_def Let_def np_max_pair)

text \<open>
  Claim C8. For two-dimensional inputs, row \<open>i\<close> of the model, of the residual and of the
  metadata depends on row \<open>i\<close> of the data and of the weights only: two calls with the
  same scalar parameters, on well-formed inputs of \<open>n\<close> channels (data and weights of
  one shape, data of one element type) that agree on row \<open>i\<close>, return outputs that agree
  on row \<open>i\<close>, at the same index, and the outputs have as many rows as the inputs. The
  libraries are as numpy and aipy are: the transform keeps the length of a run, and the
  window is a scalar or one number for each channel.
\<close>

theorem rows_do_not_interfere:
  assumes run: "high_pass_fourier_filter L data wgts fsz rd tol window skip_wgt maxiter gain kw
                  = Inr (mdl, res, info)"
    and run': "high_pass_fourier_filter L data' wgts' fsz rd tol window skip_wgt maxiter gain kw
                  = Inr (mdl', res', info')"
    and sh: "shape data = [m, n]" "shape wgts = [m, n]"
    and sh': "shape data' = [m', n]" "shape wgts' = [m', n]"
    and wf: "wf_array data" "wf_array wgts"
    and wf': "wf_array data'" "wf_array wgts'"
    and dt: "dtype data' = dtype data"
    and i: "i < m" "i < m'"
    and rows: "row n i (elems data') = row n i (elems data)"
              "row n i (elems wgts') = row n i (elems wgts)"
    and lib: "\<And>xs. length (np_ifft L xs) = length xs"
    and window: "\<And>win. gen_window L n window kw = Inr win \<Longrightarrow> shape win = [n] \<or> shape win = []"
  shows "row n i (elems mdl') = row n i (elems mdl)
       \<and> row n i (elems res') = row n i (elems res)
       \<and> (\<exists>infos infos'. info = InfoList infos \<and> info' = InfoList infos'
             \<and> length infos = m \<and> length infos' = m' \<and> infos' ! i = infos ! i)
       \<and> shape mdl = shape data \<and> shape res = shape data
       \<and> shape mdl' = shape data' \<and> shape res' = shape data'"
proof -
  from sh have nd: "ndim data = 2" by (simp add: ndim_def)
  from sh' have nd': "ndim data' = 2" by (simp add: ndim_def)
  from run nd obtain win dw dww d_hat ww w_hat u l buf infos where
    w: "gen_window L n window kw = Inr win"
    and dw: "np_mul data wgts = Inr dw" and dww: "np_mul dw win = Inr dww"
    and d_hat: "transform_last_axis (np_ifft L) dww = Inr d_hat"
    and ww: "np_mul wgts win = Inr ww"
    and w_hat: "transform_last_axis (np_ifft L) ww = Inr w_hat"
    and cw: "calc_width fsz rd (int n) = Inr (u, l)"
    and loop: "rows_loop (filter_row L d_hat w_hat (mk_area n u l) tol skip_wgt maxiter gain n (dtype data))
             n [0..<m] (replicate (m * n) 0, []) = Inr (buf, infos)"
    and mdl: "mdl = \<lparr>shape = shape data, dtype = dtype data, elems = buf\<rparr>"
    and sub: "np_sub data mdl = Inr res"
    and info: "info = InfoList infos"
    using sh by (elim hpff_2d_unfold) simp_all
  from run' nd' obtain win' dw' dww' d_hat' ww' w_hat' u' l' buf' infos' where
    w': "gen_window L n window kw = Inr win'"
    and dw': "np_mul data' wgts' = Inr dw'" and dww': "np_mul dw' win' = Inr dww'"
    and d_hat': "transform_last_axis (np_ifft L) dww' = Inr d_hat'"
    and ww': "np_mul wgts' win' = Inr ww'"
    and w_hat': "transform_last_axis (np_ifft L) ww' = Inr w_hat'"
    and cw': "calc_width fsz rd (int n) = Inr (u', l')"
    and loop': "rows_loop (filter_row L d_hat' w_hat' (mk_area n u' l') tol skip_wgt maxiter gain n (dtype data'))
             n [0..<m'] (replicate (m' * n) 0, []) = Inr (buf', infos')"
    and mdl': "mdl' = \<lparr>shape = shape data', dtype = dtype data', elems = buf'\<rparr>"
    and sub': "np_sub data' mdl' = Inr res'"
    and info': "info' = InfoList infos'"
    using sh' by (elim hpff_2d_unfold) simp_all
  from w w' have same_win: "win' = win" by simp
  from cw cw' have same_area: "u' = u" "l' = l" by simp_all
  from window [OF w] have wsh: "shape win = [n] \<or> shape win = []" .
  note hat = reciprocal_rows [OF dw dww d_hat ww w_hat sh wf wsh lib i(1)]
  note hat' = reciprocal_rows [OF dw' dww' [unfolded same_win] d_hat' ww' [unfolded same_win] w_hat'
      sh' wf' wsh lib i(2)]
  have d_eq: "index_first d_hat' i = index_first d_hat i"
    using hat(1) hat'(1) rows by simp
  have w_eq: "index_first w_hat' i = index_first w_hat i"
    using hat(2) hat'(2) rows by simp
  have body: "filter_row L d_hat' w_hat' (mk_area n u' l') tol skip_wgt maxiter gain n (dtype data') i
            = filter_row L d_hat w_hat (mk_area n u l) tol skip_wgt maxiter gain n (dtype data) i"
    unfolding same_area dt by (rule filter_row_cong [OF d_eq w_eq])
  note inv = rows_loop_upt [OF loop]
  note inv' = rows_loop_upt [OF loop']
  from inv i(1) have r: "filter_row L d_hat w_hat (mk_area n u l) tol skip_wgt maxiter gain n (dtype data) i
      = Inr (row n i buf, infos ! i)" by simp
  from inv' i(2) have r': "filter_row L d_hat' w_hat' (mk_area n u' l') tol skip_wgt maxiter gain n (dtype data') i
      = Inr (row n i buf', infos' ! i)" by simp
  from r r' body have buf_eq: "row n i buf' = row n i buf" and info_eq: "infos' ! i = infos ! i"
    by simp_all
  have res: "row n i (elems res) = map2 (-) (row n i (elems data)) (row n i (elems mdl))"
    using sub sh wf i inv mdl by (intro residual_row [where m = m]) simp_all
  have res': "row n i (elems res') = map2 (-) (row n i (elems data')) (row n i (elems mdl'))"
    using sub' sh' wf' i inv' mdl' by (intro residual_row [where m = m']) simp_all
  have res_eq: "row n i (elems res') = row n i (elems res)"
    using res res' rows buf_eq mdl mdl' by simp
  have shr: "shape res = shape data"
    using np_binop_same_shape [of "(-)" data mdl res] sub mdl by (simp add: np_sub_def)
  have shr': "shape res' = shape data'"
    using np_binop_same_shape [of "(-)" data' mdl' res'] sub' mdl' by (simp add: np_sub_def)
  from buf_eq info_eq res_eq mdl mdl' info info' inv inv' shr shr'
  show ?thesis by simp
qed

theorem rows_do_not_interfere_witness:
  "high_pass_fourier_filter demo_lib waterfall waterfall_wgts (Scalar 0) 1 (1 / 10) ''none'' (1 / 10) 0
       (1 / 10) []
     = Inr (\<lparr>shape = [2, 2], dtype = Complex128, elems = [0, 0, 0, 0]\<rparr>,
            \<lparr>shape = [2, 2], dtype = Complex128, elems = [1, 2, 3, 4]\<rparr>,
            InfoList [[(''skipped'', PBool True)], [(''iter'', PInt 0)]])
   \<and> high_pass_fourier_filter demo_lib waterfall_long waterfall_long_wgts (Scalar 0) 1 (1 / 10) ''none''
       (1 / 10) 0 (1 / 10) []
     = Inr (\<lparr>shape = [3, 2], dtype = Complex128, elems = [0, 0, 0, 0, 0, 0]\<rparr>,
            \<lparr>shape = [3, 2], dtype = Complex128, elems = [7, 8, 3, 4, 5, 6]\<rparr>,
            InfoList [[(''iter'', PInt 0)], [(''iter'', PInt 0)], [(''skipped'', PBool True)]])
   \<and> row 2 1 (elems waterfall_long) = row 2 1 (elems waterfall)
   \<and> row 2 1 (elems waterfall_long_wgts) = row 2 1 (elems waterfall_wgts)
   \<and> dtype waterfall_long = dtype waterfall
   \<and> (\<forall>xs. length (np_ifft demo_lib xs) = length xs)
   \<and> row 2 1 [0, 0, 0, 0, 0, 0] = row 2 1 [0, 0, 0, 0 :: complex]
   \<and> row 2 1 [7, 8, 3, 4, 5, 6] = row 2 1 [1, 2, 3, 4 :: complex]
   \<and> [[(''iter'', PInt 0)], [(''iter'', PInt 0)], [(''skipped'', PBool True)]] ! 1
       = [[(''skipped'', PBool True)], [(''iter'', PInt 0)]] ! 1"
proof -
  have sh: "shape waterfall = [2, 2]" "shape waterfall_wgts = [2, 2]"
    and sh': "shape waterfall_long = [3, 2]" "shape waterfall_long_wgts = [3, 2]"
    and wf: "wf_array waterfall" "wf_array waterfall_wgts"
    and wf': "wf_array waterfall_long" "wf_array waterfall_long_wgts"
    and dt: "dtype waterfall_long = dtype waterfall"
    by (simp_all add: waterfall_def waterfall_wgts_def waterfall_long_def waterfall_long_wgts_def
        wf_array_def)
  have i: "(1::nat) < 2" "(1::nat) < 3" by simp_all
  have rows: "row 2 1 (elems waterfall_long) = row 2 1 (elems waterfall)"
    "row 2 1 (elems waterfall_long_wgts) = row 2 1 (elems waterfall_wgts)"
    by (simp_all add: waterfall_def waterfall_wgts_def waterfall_long_def waterfall_long_wgts_def
        row_def)
  have lib: "length (np_ifft demo_lib xs) = length xs" for xs
    by (simp add: demo_lib_def length_ifft_exact)
  have window: "shape win = [2] \<or> shape win = []"
    if "gen_window demo_lib 2 ''none'' [] = Inr win" for win
    using that by (auto simp: demo_lib_def window_ones_def)
  from rows_do_not_interfere [OF run_waterfall run_waterfall_long sh sh' wf wf' dt i rows lib window]
  have "row 2 1 (elems \<lparr>shape = [3, 2], dtype = Complex128, elems = [0, 0, 0, 0, 0, 0]\<rparr>)
        = row 2 1 (elems \<lparr>shape = [2, 2], dtype = Complex128, elems = [0, 0, 0, 0]\<rparr>)
      \<and> row 2 1 (elems \<lparr>shape = [3, 2], dtype = Complex128, elems = [7, 8, 3, 4, 5, 6]\<rparr>)
        = row 2 1 (elems \<lparr>shape = [2, 2], dtype = Complex128, elems = [1, 2, 3, 4]\<rparr>)
      \<and> (\<exists>infos infos'.
            InfoList [[(''skipped'', PBool True)], [(''iter'', PInt 0)]] = InfoList infos
            \<and> InfoList [[(''iter'', PInt 0)], [(''iter'', PInt 0)], [(''skipped'', PBool True)]]
                = InfoList infos'
            \<and> length infos = 2 \<and> length infos' = 3 \<and> infos' ! 1 = infos ! 1)"
    by blast
  then have "row 2 1 [0, 0, 0, 0, 0, 0] = row 2 1 [0, 0, 0, 0 :: complex]
      \<and> row 2 1 [7, 8, 3, 4, 5, 6] = row 2 1 [1, 2, 3, 4 :: complex]
      \<and> [[(''iter'', PInt 0)], [(''iter'', PInt 0)], [(''skipped'', PBool True)]] ! 1
          = [[(''skipped'', PBool True)], [(''iter'', PInt 0)]] ! 1"
    by auto
  with run_waterfall run_waterfall_long rows dt lib show ?thesis by simp
qed

text \<open>
  Claim C10. For one-dimensional data the result, an exception included, does not
  depend on \<^verbatim>\<open>skip_wgt\<close>; and whenever the call returns, the model is the transform of
  what CLEAN returned and the metadata is CLEAN's, without \<^verbatim>\<open>'res'\<close>: the spectrum was
  filtered, never skipped.
\<close>

theorem one_dim_ignores_skip_wgt:
  assumes "ndim data = 1"
  shows "high_pass_fourier_filter L data wgts fsz rd tol window skip_wgt maxiter gain kw
           = high_pass_fourier_filter L data wgts fsz rd tol window skip_wgt' maxiter gain kw
       \<and> (\<forall>mdl res info.
            high_pass_fourier_filter L data wgts fsz rd tol window skip_wgt maxiter gain kw
              = Inr (mdl, res, info) \<longrightarrow>
            (\<exists>d_hat w_hat area d_cl info0 info1.
               clean L d_hat w_hat area tol False maxiter gain = Inr (d_cl, info0)
               \<and> transform_last_axis (np_fft L) d_cl = Inr mdl
               \<and> del_key info0 ''res'' = Inr info1
               \<and> info = InfoDict info1))"
proof -
  have "high_pass_fourier_filter L data wgts fsz rd tol window skip_wgt maxiter gain kw
           = high_pass_fourier_filter L data wgts fsz rd tol window skip_wgt' maxiter gain kw"
    using assms by (simp add: high_pass_fourier_filter_def)
  moreover have "\<exists>d_hat w_hat area d_cl info0 info1.
               clean L d_hat w_hat area tol False maxiter gain = Inr (d_cl, info0)
               \<and> transform_last_axis (np_fft L) d_cl = Inr mdl
               \<and> del_key info0 ''res'' = Inr info1
               \<and> info = InfoDict info1"
    if "high_pass_fourier_filter L data wgts fsz rd tol window skip_wgt maxiter gain kw
              = Inr (mdl, res, info)" for mdl res info
    using that assms by (elim hpff_1d_unfold) blast+
  ultimately show ?thesis by blast
qed

theorem one_dim_ignores_skip_wgt_witness:
  "ndim spectrum = 1
   \<and> high_pass_fourier_filter demo_lib spectrum spectrum_wgts (Scalar 0) 1 (1 / 10) ''none'' (1 / 10) 0
         (1 / 10) []
       = high_pass_fourier_filter demo_lib spectrum spectrum_wgts (Scalar 0) 1 (1 / 10) ''none'' 5 0
           (1 / 10) []
   \<and> high_pass_fourier_filter demo_lib spectrum spectrum_wgts (Scalar 0) 1 (1 / 10) ''none'' 5 0
         (1 / 10) []
       = Inr (\<lparr>shape = [2], dtype = Complex128, elems = [0, 0]\<rparr>,
              \<lparr>shape = [2], dtype = Complex128, elems = [3, 5]\<rparr>,
              InfoDict [(''iter'', PInt 0)])"
proof -
  have nd: "ndim spectrum = 1" by (simp add: spectrum_def ndim_def)
  from one_dim_ignores_skip_wgt [OF nd, of demo_lib spectrum_wgts "Scalar 0" 1 "1 / 10" "''none''"
      "1 / 10" 0 "1 / 10" "[]" 5]
  have "high_pass_fourier_filter demo_lib spectrum spectrum_wgts (Scalar 0) 1 (1 / 10) ''none'' (1 / 10) 0
         (1 / 10) []
       = high_pass_fourier_filter demo_lib spectrum spectrum_wgts (Scalar 0) 1 (1 / 10) ''none'' 5 0
           (1 / 10) []"
    by blast
  with nd run_spectrum [of 5] show ?thesis by simp
qed

end
